theory Spec2Isabelle
  imports Complex_Main "HOL-Library.Log_Nat"
begin

section \<open>PortFlow clearing agent: the container model (core/models.py)\<close>

text \<open>
  The development embeds the request handlers of \<^verbatim>\<open>core/api.py\<close>, the validation rules of
  \<^verbatim>\<open>core/utils.py\<close> and the \<^verbatim>\<open>Container\<close> model of \<^verbatim>\<open>core/models.py\<close>.

  Conventions of the embedding.
  \<^item> A Python \<^verbatim>\<open>Decimal\<close> and a Python \<^verbatim>\<open>float\<close> are both rational numbers; they are
    values of type \<open>rat\<close>. The rounding done by binary floating point arithmetic, by a
    decimal context of a given precision and by a \<^verbatim>\<open>DecimalField\<close> with two decimal places
    is written out (\<open>fl64\<close>, \<open>create_decimal_from_float\<close>, \<open>quantize2\<close>). A float is finite.
  \<^item> The database is SQLite, the backend a Django project has unless it configures another.
  \<^item> A Python \<^verbatim>\<open>str\<close> is a \<open>string\<close>; a character is a code point below 256.
  \<^item> The clock is an input: a handler receives the time \<open>now\<close> of the request.
  \<^item> The table of containers is a finite map from \<^verbatim>\<open>container_id\<close> (declared unique) to
    the stored row. A handler returns its HTTP result together with the table it leaves.
  \<^item> An exception that no handler catches is answered by the framework with status 500.
  \<^item> The \<^verbatim>\<open>details\<close> text of a log entry is kept as the data the f-string is built from,
    and the \<^verbatim>\<open>message\<close> text of a response, which is rendered from its other fields, is
    left out.
\<close>

type_synonym decimal = rat
type_synonym timestamp = nat

datatype overall_status =
    PENDING_VALIDATION | VALIDATED | PENDING_CUSTOMS | CUSTOMS_CLEARED
  | PENDING_INSPECTION | INSPECTION_PASSED | RELEASED | OS_FAILED

datatype customs_status = PENDING | PAYMENT_REQUIRED | PAID | CLEARED | REJECTED

datatype shipping_status = IN_TRANSIT | ARRIVED | DISCHARGED | READY_FOR_PICKUP

datatype inspection_status = NOT_SCHEDULED | SCHEDULED | IN_PROGRESS | PASSED | IS_FAILED

datatype payment_ref = Supplied string | Generated timestamp

datatype log_details =
    BillOfLadingUploaded string
  | ValidationPassed
  | ValidationErrors "string list"
  | CustomsDutyPaid decimal payment_ref
  | ShippingStatusQueried shipping_status
  | InspectionScheduledFor timestamp
  | InspectionCompleted
  | InspectionFailed
  | ContainerCleared

record log_entry =
  le_timestamp :: timestamp
  actor :: string
  action :: string
  details :: log_details

record container =
  container_id :: string
  overall_status :: overall_status
  vessel_name :: "string option"
  importer_name :: "string option"
  importer_address :: "string option"
  tin :: "string option"
  port_of_loading :: "string option"
  port_of_discharge :: "string option"
  cargo_description :: "string option"
  cargo_weight :: "decimal option"
  customs_status :: customs_status
  shipping_status :: shipping_status
  inspection_status :: inspection_status
  customs_duty_amount :: "decimal option"
  customs_paid_at :: "timestamp option"
  original_filename :: "string option"
  document_validated :: bool
  validation_errors :: "string list"
  logs :: "log_entry list"
  created_at :: timestamp
  updated_at :: timestamp

type_synonym store = "string \<rightharpoonup> container"

subsection \<open>Decimal columns and binary floating point\<close>

text \<open>Rounding to the nearest integer, ties to the even one (Python's default decimal
  context and IEEE 754).\<close>

definition round_half_even :: "rat \<Rightarrow> int" where
  "round_half_even x =
     (let f = \<lfloor>x\<rfloor>; r = x - of_int f
      in if r < 1 / 2 then f else if 1 / 2 < r then f + 1 else if even f then f else f + 1)"

text \<open>A \<^verbatim>\<open>DecimalField(decimal_places=2)\<close> column holds two decimal places: the value
  written is rounded to a multiple of \<open>1/100\<close>.\<close>

definition quantize2 :: "decimal \<Rightarrow> decimal" where
  "quantize2 x = of_int (round_half_even (x * 100)) / 100"

text \<open>\<open>ilog2 x\<close> is the exponent \<open>e\<close> with \<open>2 ^ e \<le> x < 2 ^ (e + 1)\<close> of a positive
  rational.\<close>

definition ilog2 :: "rat \<Rightarrow> int" where
  "ilog2 x =
     (let (p, q) = quotient_of x;
          d = bitlen p - bitlen q
      in if power_int 2 d \<le> x then d else d - 1)"

text \<open>The nearest binary64 number: 53 significant bits, ties to even. Overflow and
  subnormal numbers do not occur at the magnitudes of a weight column of ten digits.\<close>

definition fl64 :: "rat \<Rightarrow> rat" where
  "fl64 x =
     (if x = 0 then 0
      else let u = power_int 2 (ilog2 \<bar>x\<bar> - 52)
           in sgn x * of_int (round_half_even (\<bar>x\<bar> / u)) * u)"

text \<open>Python's \<^verbatim>\<open>float(d)\<close> of a Decimal, and the float product \<^verbatim>\<open>a * b\<close>.\<close>

definition py_float :: "decimal \<Rightarrow> rat" where
  "py_float d = fl64 d"

definition fmul :: "rat \<Rightarrow> rat \<Rightarrow> rat" where
  "fmul a b = fl64 (a * b)"

subsection \<open>Decimal contexts\<close>

text \<open>The exponent of the leading decimal digit of a positive rational
  (\<^verbatim>\<open>Decimal.adjusted()\<close>): \<open>10 ^ e \<le> x < 10 ^ (e + 1)\<close>. The digits are counted by repeated
  division or multiplication by ten; the number of bits of the numerator, or of the
  denominator, bounds the number of steps.\<close>

fun scale_down :: "nat \<Rightarrow> rat \<Rightarrow> int" where
  "scale_down 0 x = 0"
| "scale_down (Suc n) x = (if 10 \<le> x then scale_down n (x / 10) + 1 else 0)"

fun scale_up :: "nat \<Rightarrow> rat \<Rightarrow> int" where
  "scale_up 0 x = 0"
| "scale_up (Suc n) x = (if 1 \<le> x then 0 else scale_up n (x * 10) - 1)"

definition adjusted :: "rat \<Rightarrow> int" where
  "adjusted x =
     (let (p, q) = quotient_of x
      in if 1 \<le> x then scale_down (nat (bitlen p)) x else scale_up (nat (bitlen q)) x)"

text \<open>\<^verbatim>\<open>Context(prec=prec).create_decimal_from_float(x)\<close>: the nearest number of \<open>prec\<close>
  significant decimal digits, ties to even.\<close>

definition create_decimal_from_float :: "nat \<Rightarrow> rat \<Rightarrow> decimal" where
  "create_decimal_from_float prec x =
     (if x = 0 then 0
      else let u = power_int 10 (adjusted \<bar>x\<bar> - int prec + 1)
           in sgn x * of_int (round_half_even (\<bar>x\<bar> / u)) * u)"

subsection \<open>Decimal columns\<close>

text \<open>
  A \<^verbatim>\<open>DecimalField(max_digits=m, decimal_places=2)\<close> column.
  \<^item> Writing. \<^verbatim>\<open>DecimalField.to_python\<close> turns a float into a Decimal of \<open>m\<close> significant
    digits (\<^verbatim>\<open>self.context.create_decimal_from_float\<close>) and leaves a Decimal as it is; the
    backend writes the number as it stands, with no check of \<open>m\<close>, and SQLite keeps it as a
    binary64 number.
  \<^item> Reading. The converter of the backend makes a Decimal of 15 significant digits of the
    number kept and quantizes it to two places in the context of the field, of precision
    \<open>m\<close>; \<^verbatim>\<open>quantize\<close> raises \<^verbatim>\<open>InvalidOperation\<close> when the result has more than \<open>m\<close> digits.

  A row of the table holds each decimal as the converter computes it (\<open>converted\<close>); the row
  can be read when each decimal has the digits of its column (\<open>fits\<close>). A decimal of at
  most 15 digits is kept and read back unchanged by SQLite's binary64 number.
\<close>

definition converted :: "decimal \<Rightarrow> decimal" where
  "converted v = quantize2 (create_decimal_from_float 15 v)"

definition fits :: "nat \<Rightarrow> decimal \<Rightarrow> bool" where
  "fits max_digits v = (\<bar>converted v\<bar> * 100 < 10 ^ max_digits)"

text \<open>The row can be read: \<^verbatim>\<open>cargo_weight\<close> has \<^verbatim>\<open>max_digits=10\<close> and
  \<^verbatim>\<open>customs_duty_amount\<close> has \<^verbatim>\<open>max_digits=12\<close>.\<close>

definition readable :: "container \<Rightarrow> bool" where
  "readable c =
     ((case cargo_weight c of None \<Rightarrow> True | Some w \<Rightarrow> fits 10 w)
      \<and> (case customs_duty_amount c of None \<Rightarrow> True | Some d \<Rightarrow> fits 12 d))"

text \<open>A decimal of two places.\<close>

definition two_places :: "decimal \<Rightarrow> bool" where
  "two_places v = (quantize2 v = v)"

subsection \<open>Saving a row, the audit log\<close>

text \<open>\<^verbatim>\<open>save()\<close> writes the row under its \<^verbatim>\<open>container_id\<close>: \<^verbatim>\<open>updated_at\<close> is
  \<^verbatim>\<open>auto_now\<close>. The weight is a float when the row is created, and is rounded to the ten
  digits of its column; a weight that was read from the column has them already. The duty
  is a Decimal. The object in the handler's hands keeps the values it was given.\<close>

definition save :: "store \<Rightarrow> container \<Rightarrow> timestamp \<Rightarrow> store" where
  "save db c now =
     db(container_id c \<mapsto>
        c\<lparr>updated_at := now,
          cargo_weight :=
            map_option (\<lambda>w. converted (create_decimal_from_float 10 w)) (cargo_weight c),
          customs_duty_amount := map_option converted (customs_duty_amount c)\<rparr>)"

text \<open>\<^verbatim>\<open>Container.add_log\<close>: append the entry, then save.\<close>

definition add_log ::
  "store \<Rightarrow> container \<Rightarrow> string \<Rightarrow> string \<Rightarrow> log_details \<Rightarrow> timestamp \<Rightarrow> container \<times> store" where
  "add_log db c a act d now =
     (let c' = c\<lparr>logs := logs c @
                 [\<lparr>le_timestamp = now, actor = a, action = act, details = d\<rparr>]\<rparr>
      in (c', save db c' now))"

datatype error =
    InvalidFileType
  | DocumentParsingFailed "string list"
  | ContainerAlreadyExists string
  | NotFound
  | AlreadyPaid
  | InsufficientPayment decimal
  | CustomsNotCleared
  | AlreadyScheduled
  | InspectionNotPassed
  | ServerError


text \<open>\<^verbatim>\<open>get_object_or_404\<close> is the first statement of every handler but the upload. When
  the row cannot be read the converter's exception leaves the handler there, before
  anything is written, and no handler catches it: the handlers are defined on the row that
  \<^verbatim>\<open>get_object_or_404\<close> returned, and the answer for a row that cannot be read is given
  where requests are dispatched (\<open>respond\<close>).\<close>

definition get_object_or_404 :: "store \<Rightarrow> string \<Rightarrow> error + container" where
  "get_object_or_404 db cid = (case db cid of None \<Rightarrow> Inl NotFound | Some c \<Rightarrow> Inr c)"

section \<open>Validation rules (core/utils.py)\<close>

text \<open>Truth value of an optional string: \<^verbatim>\<open>None\<close>, a missing key and \<^verbatim>\<open>""\<close> are false.\<close>

fun truthy :: "string option \<Rightarrow> bool" where
  "truthy None = False"
| "truthy (Some s) = (s \<noteq> [])"

definition is_upper :: "char \<Rightarrow> bool" where
  "is_upper c = (65 \<le> (of_char c :: nat) \<and> (of_char c :: nat) \<le> 90)"

definition is_digit :: "char \<Rightarrow> bool" where
  "is_digit c = (48 \<le> (of_char c :: nat) \<and> (of_char c :: nat) \<le> 57)"

text \<open>In Python \<^verbatim>\<open>$\<close> matches at the end of the string and before a final newline.\<close>

definition at_end :: "(string \<Rightarrow> bool) \<Rightarrow> string \<Rightarrow> bool" where
  "at_end core s = (core s \<or> (s \<noteq> [] \<and> last s = CHR 0x0A \<and> core (butlast s)))"

text \<open>\<^verbatim>\<open>re.match(r'^[A-Z]{4}\d{7}$', s)\<close>\<close>

definition container_id_core :: "string \<Rightarrow> bool" where
  "container_id_core s =
     (length s = 11 \<and> list_all is_upper (take 4 s) \<and> list_all is_digit (drop 4 s))"

definition match_container_id :: "string \<Rightarrow> bool" where
  "match_container_id s = at_end container_id_core s"

text \<open>\<^verbatim>\<open>re.match(r'^\d{10,12}$', s)\<close>\<close>

definition tin_core :: "string \<Rightarrow> bool" where
  "tin_core s = (10 \<le> length s \<and> length s \<le> 12 \<and> list_all is_digit s)"

definition match_tin :: "string \<Rightarrow> bool" where
  "match_tin s = at_end tin_core s"

definition startswith :: "string \<Rightarrow> string \<Rightarrow> bool" where
  "startswith s p = (take (length p) s = p)"

text \<open>The keys of the dictionary that \<^verbatim>\<open>validate_container_data\<close> reads.\<close>

record vdata =
  v_container_id :: "string option"
  v_vessel_name :: "string option"
  v_importer_name :: "string option"
  v_tin :: "string option"

definition err_id_required :: string where
  "err_id_required = ''Container ID is required''"

definition err_id_format :: string where
  "err_id_format = ''Container ID format is invalid (expected: 4 letters + 7 digits)''"

definition err_tin_format :: string where
  "err_tin_format = ''TIN format is invalid (expected: 10-12 digits)''"

definition err_vessel :: string where
  "err_vessel = ''Vessel name is missing (recommended)''"

definition err_importer :: string where
  "err_importer = ''Importer name is missing (recommended)''"

definition validate_container_data :: "vdata \<Rightarrow> string list" where
  "validate_container_data data =
     (let errors = [];
          errors = (if \<not> truthy (v_container_id data) then errors @ [err_id_required] else errors);
          cid = (case v_container_id data of None \<Rightarrow> [] | Some s \<Rightarrow> s);
          errors = (if cid \<noteq> [] \<and> \<not> match_container_id cid \<and> \<not> startswith cid ''DEMO''
                    then errors @ [err_id_format] else errors);
          t = (case v_tin data of None \<Rightarrow> [] | Some s \<Rightarrow> s);
          errors = (if t \<noteq> [] \<and> \<not> match_tin t then errors @ [err_tin_format] else errors);
          errors = (if \<not> truthy (v_vessel_name data) then errors @ [err_vessel] else errors);
          errors = (if \<not> truthy (v_importer_name data) then errors @ [err_importer] else errors)
      in errors)"

section \<open>Request handlers (core/api.py)\<close>

subsection \<open>upload_bill_of_lading\<close>

text \<open>The parser's result is an input of the handler: \<^verbatim>\<open>success\<close>, \<^verbatim>\<open>errors\<close> and the
  extracted \<^verbatim>\<open>data\<close>. The parser always sets \<^verbatim>\<open>container_id\<close>; every other key may
  be missing.\<close>

record extracted =
  x_container_id :: string
  x_vessel_name :: "string option"
  x_importer_name :: "string option"
  x_importer_address :: "string option"
  x_tin :: "string option"
  x_port_of_loading :: "string option"
  x_port_of_discharge :: "string option"
  x_cargo_description :: "string option"
  x_cargo_weight :: "decimal option"

record parse_result =
  success :: bool
  errors :: "string list"
  data :: extracted

text \<open>\<^verbatim>\<open>Container.objects.filter(container_id=container_id).first()\<close>: the row, if there
  is one, is read through the converters, which may raise.\<close>

definition first_by_id :: "store \<Rightarrow> string \<Rightarrow> error + container option" where
  "first_by_id db cid =
     (case db cid of
        None \<Rightarrow> Inr None
      | Some row \<Rightarrow> if readable row then Inr (Some row) else Inl ServerError)"

text \<open>\<^verbatim>\<open>str.lower\<close> on code points below 256.\<close>

definition lower_char :: "char \<Rightarrow> char" where
  "lower_char c =
     (let n = (of_char c :: nat)
      in if (65 \<le> n \<and> n \<le> 90) \<or> (192 \<le> n \<and> n \<le> 222 \<and> n \<noteq> 215)
         then char_of (n + 32) else c)"

definition endswith :: "string \<Rightarrow> string \<Rightarrow> bool" where
  "endswith s p = (length p \<le> length s \<and> drop (length s - length p) s = p)"

definition vdata_of_extracted :: "extracted \<Rightarrow> vdata" where
  "vdata_of_extracted d =
     \<lparr>v_container_id = Some (x_container_id d), v_vessel_name = x_vessel_name d,
      v_importer_name = x_importer_name d, v_tin = x_tin d\<rparr>"

record create_response =
  cr_container_id :: string
  cr_overall_status :: overall_status

text \<open>The body of the handler is one \<^verbatim>\<open>try\<close> block: whatever is raised inside it is
  answered with status 500, "Server error".\<close>

definition upload_bill_of_lading ::
  "store \<Rightarrow> string \<Rightarrow> parse_result \<Rightarrow> timestamp \<Rightarrow> (error + create_response) \<times> store" where
  "upload_bill_of_lading db file_name pr now =
     (if \<not> endswith (map lower_char file_name) ''.pdf'' then (Inl InvalidFileType, db)
      else if \<not> success pr then (Inl (DocumentParsingFailed (errors pr)), db)
      else
        let d = data pr in
        (case first_by_id db (x_container_id d) of
           Inl e \<Rightarrow> (Inl ServerError, db)
         | Inr (Some existing) \<Rightarrow> (Inl (ContainerAlreadyExists (x_container_id d)), db)
         | Inr None \<Rightarrow>
             let verrs = validate_container_data (vdata_of_extracted d);
                 c = \<lparr>container_id = x_container_id d,
                      overall_status = PENDING_VALIDATION,
                      vessel_name = x_vessel_name d,
                      importer_name = x_importer_name d,
                      importer_address = x_importer_address d,
                      tin = x_tin d,
                      port_of_loading = x_port_of_loading d,
                      port_of_discharge =
                        (case x_port_of_discharge d of None \<Rightarrow> Some ''Lagos, Nigeria''
                         | Some p \<Rightarrow> Some p),
                      cargo_description = x_cargo_description d,
                      cargo_weight = x_cargo_weight d,
                      customs_status = PENDING,
                      shipping_status = DISCHARGED,
                      inspection_status = NOT_SCHEDULED,
                      customs_duty_amount = None,
                      customs_paid_at = None,
                      original_filename = Some file_name,
                      document_validated = (length verrs = 0),
                      validation_errors = verrs,
                      logs = [],
                      created_at = now,
                      updated_at = now\<rparr>;
                 db = save db c now;
                 (c, db) = add_log db c ''system'' ''document_upload''
                             (BillOfLadingUploaded file_name) now
             in (Inr \<lparr>cr_container_id = container_id c,
                      cr_overall_status = overall_status c\<rparr>, db)))"

subsection \<open>validate_container\<close>

record validation_response =
  vr_container_id :: string
  is_valid :: bool
  vr_errors :: "string list"
  vr_message :: string

definition vdata_of_container :: "container \<Rightarrow> vdata" where
  "vdata_of_container c =
     \<lparr>v_container_id = Some (container_id c), v_vessel_name = vessel_name c,
      v_importer_name = importer_name c, v_tin = tin c\<rparr>"

definition validation_response_of :: "container \<Rightarrow> validation_response" where
  "validation_response_of c =
     \<lparr>vr_container_id = container_id c, is_valid = document_validated c,
      vr_errors = validation_errors c,
      vr_message = (if document_validated c then ''Validation successful''
                    else ''Validation failed'')\<rparr>"

definition validate_container ::
  "store \<Rightarrow> string \<Rightarrow> bool \<Rightarrow> timestamp \<Rightarrow> (error + validation_response) \<times> store" where
  "validate_container db cid force_revalidate now =
     (case get_object_or_404 db cid of
        Inl e \<Rightarrow> (Inl e, db)
      | Inr c \<Rightarrow>
          if force_revalidate \<or> \<not> document_validated c then
            let errs = validate_container_data (vdata_of_container c);
                c = c\<lparr>validation_errors := errs\<rparr>;
                c = c\<lparr>document_validated := (length errs = 0)\<rparr>;
                (c, db) =
                  (if document_validated c then
                     add_log db (c\<lparr>overall_status := VALIDATED\<rparr>) ''agent'' ''validation''
                       ValidationPassed now
                   else
                     add_log db c ''agent'' ''validation_failed'' (ValidationErrors errs) now);
                db = save db c now
            in (Inr (validation_response_of c), db)
          else (Inr (validation_response_of c), db))"

subsection \<open>check_customs_status\<close>

text \<open>Truth value of an optional Decimal: \<^verbatim>\<open>None\<close> and zero are false.\<close>

fun truthy_dec :: "decimal option \<Rightarrow> bool" where
  "truthy_dec None = False"
| "truthy_dec (Some d) = (d \<noteq> 0)"

text \<open>The float literal \<^verbatim>\<open>0.10\<close>.\<close>

definition float_0_10 :: rat where
  "float_0_10 = fl64 (1 / 10)"

text \<open>\<^verbatim>\<open>Decimal(float(cargo_weight) * 100 * 0.10)\<close>; the conversion of a float to a Decimal
  is exact.\<close>

definition estimated_duty :: "decimal \<Rightarrow> decimal" where
  "estimated_duty w = fmul (fmul (py_float w) 100) float_0_10"

record customs_status_response =
  cs_container_id :: string
  cs_customs_status :: customs_status
  amount_due :: "decimal option"

definition check_customs_status ::
  "store \<Rightarrow> string \<Rightarrow> timestamp \<Rightarrow> (error + customs_status_response) \<times> store" where
  "check_customs_status db cid now =
     (case get_object_or_404 db cid of
        Inl e \<Rightarrow> (Inl e, db)
      | Inr c \<Rightarrow>
          let (c, db) =
                (if customs_duty_amount c = None then
                   let c = (if truthy_dec (cargo_weight c)
                            then c\<lparr>customs_duty_amount :=
                                     Some (estimated_duty (the (cargo_weight c)))\<rparr>
                            else c\<lparr>customs_duty_amount := Some 150000\<rparr>);
                       c = (if customs_status c = PENDING
                            then c\<lparr>customs_status := PAYMENT_REQUIRED\<rparr> else c)
                   in (c, save db c now)
                 else (c, db));
              due = (if customs_status c = PAYMENT_REQUIRED then customs_duty_amount c
                     else None)
          in (Inr \<lparr>cs_container_id = container_id c, cs_customs_status = customs_status c,
                   amount_due = due\<rparr>, db))"

subsection \<open>pay_customs_duty\<close>

record payment_request =
  pq_container_id :: string
  pq_amount :: decimal
  payment_reference :: "string option"

record payment_response =
  pp_container_id :: string
  pp_status :: customs_status
  amount_paid :: decimal
  payment_date :: "timestamp option"

definition pay_customs_duty ::
  "store \<Rightarrow> payment_request \<Rightarrow> timestamp \<Rightarrow> (error + payment_response) \<times> store" where
  "pay_customs_duty db payload now =
     (case get_object_or_404 db (pq_container_id payload) of
        Inl e \<Rightarrow> (Inl e, db)
      | Inr c \<Rightarrow>
          if customs_status c = PAID then (Inl AlreadyPaid, db)
          else if truthy_dec (customs_duty_amount c)
                  \<and> pq_amount payload < the (customs_duty_amount c)
          then (Inl (InsufficientPayment (the (customs_duty_amount c))), db)
          else
            let c = c\<lparr>customs_status := PAID\<rparr>;
                c = c\<lparr>customs_paid_at := Some now\<rparr>;
                c = c\<lparr>overall_status := CUSTOMS_CLEARED\<rparr>;
                payment_ref = (if truthy (payment_reference payload)
                               then Supplied (the (payment_reference payload))
                               else Generated now);
                (c, db) = add_log db c ''agent'' ''customs_payment''
                            (CustomsDutyPaid (pq_amount payload) payment_ref) now;
                db = save db c now
            in (Inr \<lparr>pp_container_id = container_id c, pp_status = customs_status c,
                     amount_paid = pq_amount payload, payment_date = customs_paid_at c\<rparr>, db))"

subsection \<open>check_shipping_status\<close>

record shipping_status_response =
  ss_container_id :: string
  ss_shipping_status :: shipping_status
  ss_vessel_name :: "string option"
  ss_port_of_discharge :: "string option"

definition check_shipping_status ::
  "store \<Rightarrow> string \<Rightarrow> timestamp \<Rightarrow> (error + shipping_status_response) \<times> store" where
  "check_shipping_status db cid now =
     (case get_object_or_404 db cid of
        Inl e \<Rightarrow> (Inl e, db)
      | Inr c \<Rightarrow>
          let (c, db) = add_log db c ''agent'' ''shipping_status_check''
                          (ShippingStatusQueried (shipping_status c)) now
          in (Inr \<lparr>ss_container_id = container_id c, ss_shipping_status = shipping_status c,
                   ss_vessel_name = vessel_name c,
                   ss_port_of_discharge = port_of_discharge c\<rparr>, db))"

subsection \<open>schedule_inspection, complete_inspection, release_container\<close>

record inspection_schedule_response =
  is_container_id :: string
  is_inspection_status :: inspection_status
  scheduled_date :: timestamp

text \<open>The mock date: the day after \<open>now\<close> at 10:00:00. The clock counts seconds; the
  calendar arithmetic is that of a day of 86400 seconds.\<close>

definition tomorrow_at_ten :: "timestamp \<Rightarrow> timestamp" where
  "tomorrow_at_ten now = (now div 86400 + 1) * 86400 + 36000"

definition schedule_inspection ::
  "store \<Rightarrow> string \<Rightarrow> timestamp \<Rightarrow> (error + inspection_schedule_response) \<times> store" where
  "schedule_inspection db cid now =
     (case get_object_or_404 db cid of
        Inl e \<Rightarrow> (Inl e, db)
      | Inr c \<Rightarrow>
          if customs_status c \<noteq> PAID then (Inl CustomsNotCleared, db)
          else if inspection_status c = SCHEDULED then (Inl AlreadyScheduled, db)
          else
            let c = c\<lparr>inspection_status := SCHEDULED\<rparr>;
                c = c\<lparr>overall_status := PENDING_INSPECTION\<rparr>;
                d = tomorrow_at_ten now;
                (c, db) = add_log db c ''agent'' ''inspection_scheduled''
                            (InspectionScheduledFor d) now;
                db = save db c now
            in (Inr \<lparr>is_container_id = container_id c,
                     is_inspection_status = inspection_status c, scheduled_date = d\<rparr>, db))"

record success_response =
  sr_container_id :: string
  sr_inspection_status :: "inspection_status option"
  sr_overall_status :: "overall_status option"

definition complete_inspection ::
  "store \<Rightarrow> string \<Rightarrow> bool \<Rightarrow> timestamp \<Rightarrow> (error + success_response) \<times> store" where
  "complete_inspection db cid passed now =
     (case get_object_or_404 db cid of
        Inl e \<Rightarrow> (Inl e, db)
      | Inr c \<Rightarrow>
          let (c, db) =
                (if passed then
                   add_log db (c\<lparr>inspection_status := PASSED,
                                 overall_status := INSPECTION_PASSED\<rparr>)
                     ''npa_inspector'' ''inspection_passed'' InspectionCompleted now
                 else
                   add_log db (c\<lparr>inspection_status := IS_FAILED,
                                 overall_status := OS_FAILED\<rparr>)
                     ''npa_inspector'' ''inspection_failed'' InspectionFailed now);
              db = save db c now
          in (Inr \<lparr>sr_container_id = cid,
                   sr_inspection_status = Some (inspection_status c),
                   sr_overall_status = None\<rparr>, db))"

definition release_container ::
  "store \<Rightarrow> string \<Rightarrow> timestamp \<Rightarrow> (error + success_response) \<times> store" where
  "release_container db cid now =
     (case get_object_or_404 db cid of
        Inl e \<Rightarrow> (Inl e, db)
      | Inr c \<Rightarrow>
          if inspection_status c \<noteq> PASSED then (Inl InspectionNotPassed, db)
          else
            let c = c\<lparr>overall_status := RELEASED\<rparr>;
                c = c\<lparr>shipping_status := READY_FOR_PICKUP\<rparr>;
                (c, db) = add_log db c ''agent'' ''container_released'' ContainerCleared now;
                db = save db c now
            in (Inr \<lparr>sr_container_id = cid, sr_inspection_status = None,
                     sr_overall_status = Some (overall_status c)\<rparr>, db))"

section \<open>Sample rows\<close>

text \<open>The row that an upload of the sample bill for \<^verbatim>\<open>MAEU4567890\<close> (18500 KG) leaves, and
  the same row at later stages of the workflow.\<close>

definition sample_container :: container where
  "sample_container =
     \<lparr>container_id = ''MAEU4567890'',
      overall_status = PENDING_VALIDATION,
      vessel_name = Some ''MV Lagos Express'',
      importer_name = Some ''Adebayo Imports Ltd'',
      importer_address = None,
      tin = Some ''1234567890'',
      port_of_loading = Some ''Shanghai, China'',
      port_of_discharge = Some ''Lagos, Nigeria'',
      cargo_description = None,
      cargo_weight = Some 18500,
      customs_status = PENDING,
      shipping_status = DISCHARGED,
      inspection_status = NOT_SCHEDULED,
      customs_duty_amount = None,
      customs_paid_at = None,
      original_filename = Some ''bill.pdf'',
      document_validated = True,
      validation_errors = [],
      logs = [],
      created_at = 0,
      updated_at = 0\<rparr>"

definition sample_db :: store where
  "sample_db = [''MAEU4567890'' \<mapsto> sample_container]"

definition paid_container :: container where
  "paid_container =
     sample_container\<lparr>customs_status := PAID, customs_duty_amount := Some 185000,
                      overall_status := CUSTOMS_CLEARED\<rparr>"

definition paid_db :: store where
  "paid_db = [''MAEU4567890'' \<mapsto> paid_container]"

definition passed_container :: container where
  "passed_container =
     paid_container\<lparr>inspection_status := PASSED, overall_status := INSPECTION_PASSED\<rparr>"

definition passed_db :: store where
  "passed_db = [''MAEU4567890'' \<mapsto> passed_container]"

definition sample_parse_result :: parse_result where
  "sample_parse_result =
     \<lparr>success = True, errors = [],
      data = \<lparr>x_container_id = ''MAEU4567890'', x_vessel_name = None,
              x_importer_name = Some ''Another Importer'', x_importer_address = None,
              x_tin = None, x_port_of_loading = None, x_port_of_discharge = None,
              x_cargo_description = None, x_cargo_weight = Some 1\<rparr>\<rparr>"

subsection \<open>Uploaded bills\<close>

text \<open>The sample bill itself, a bill with a weight of eleven digits, one with the weight
  \<^verbatim>\<open>0 KG\<close> and one with \<^verbatim>\<open>0.03 KG\<close>; the parser returns a weight as the float of its
  digits.\<close>

definition bill_parse_result :: parse_result where
  "bill_parse_result =
     \<lparr>success = True, errors = [],
      data = \<lparr>x_container_id = ''MAEU4567890'', x_vessel_name = Some ''MV Lagos Express'',
              x_importer_name = Some ''Adebayo Imports Ltd'', x_importer_address = None,
              x_tin = Some ''1234567890'', x_port_of_loading = Some ''Shanghai, China'',
              x_port_of_discharge = Some ''Lagos, Nigeria'',
              x_cargo_description = None, x_cargo_weight = Some (fl64 18500)\<rparr>\<rparr>"


definition zero_weight_parse_result :: parse_result where
  "zero_weight_parse_result =
     bill_parse_result\<lparr>data := (data bill_parse_result)\<lparr>x_cargo_weight := Some (fl64 0)\<rparr>\<rparr>"

definition light_parse_result :: parse_result where
  "light_parse_result =
     bill_parse_result\<lparr>data := (data bill_parse_result)
        \<lparr>x_cargo_weight := Some (fl64 (3 / 100))\<rparr>\<rparr>"


definition zero_weight_db :: store where
  "zero_weight_db = snd (upload_bill_of_lading Map.empty ''bill.pdf'' zero_weight_parse_result 0)"

definition light_db :: store where
  "light_db = snd (upload_bill_of_lading Map.empty ''bill.pdf'' light_parse_result 0)"

section \<open>Sequences of requests\<close>

text \<open>The routers dispatch one request at a time; each request is served at its own
  time against the table the previous one left.\<close>

datatype request =
    Upload string parse_result
  | Validate string bool
  | CheckCustoms string
  | Pay payment_request
  | CheckShipping string
  | Schedule string
  | Complete string bool
  | Release string

text \<open>The container that a request addresses.\<close>

fun request_id :: "request \<Rightarrow> string" where
  "request_id (Upload f pr) = x_container_id (data pr)"
| "request_id (Validate cid force) = cid"
| "request_id (CheckCustoms cid) = cid"
| "request_id (Pay payload) = pq_container_id payload"
| "request_id (CheckShipping cid) = cid"
| "request_id (Schedule cid) = cid"
| "request_id (Complete cid passed) = cid"
| "request_id (Release cid) = cid"

text \<open>The answer of a handler as the client sees it: accepted (\<open>None\<close>) or the error.\<close>

definition outcome :: "(error + 'a) \<times> store \<Rightarrow> error option \<times> store" where
  "outcome res = ((case fst res of Inl e \<Rightarrow> Some e | Inr r \<Rightarrow> None), snd res)"

fun handle :: "store \<Rightarrow> request \<Rightarrow> timestamp \<Rightarrow> error option \<times> store" where
  "handle db (Upload f pr) now = outcome (upload_bill_of_lading db f pr now)"
| "handle db (Validate cid force) now = outcome (validate_container db cid force now)"
| "handle db (CheckCustoms cid) now = outcome (check_customs_status db cid now)"
| "handle db (Pay payload) now = outcome (pay_customs_duty db payload now)"
| "handle db (CheckShipping cid) now = outcome (check_shipping_status db cid now)"
| "handle db (Schedule cid) now = outcome (schedule_inspection db cid now)"
| "handle db (Complete cid passed) now = outcome (complete_inspection db cid passed now)"
| "handle db (Release cid) now = outcome (release_container db cid now)"

text \<open>Only the upload handler catches what reading a row raises.\<close>

fun catches :: "request \<Rightarrow> bool" where
  "catches (Upload f pr) = True"
| "catches _ = False"

definition unreadable_at :: "store \<Rightarrow> string \<Rightarrow> bool" where
  "unreadable_at db cid = (case db cid of None \<Rightarrow> False | Some row \<Rightarrow> \<not> readable row)"

definition respond :: "store \<Rightarrow> request \<Rightarrow> timestamp \<Rightarrow> error option \<times> store" where
  "respond db r now =
     (if \<not> catches r \<and> unreadable_at db (request_id r) then (Some ServerError, db)
      else handle db r now)"

definition serve :: "store \<Rightarrow> request \<Rightarrow> timestamp \<Rightarrow> store" where
  "serve db r now = snd (respond db r now)"

fun run :: "store \<Rightarrow> (request \<times> timestamp) list \<Rightarrow> store" where
  "run db [] = db"
| "run db ((r, t) # rs) = run (serve db r t) rs"

text \<open>\<^verbatim>\<open>container_id\<close> is the key of the table: a row is found under its own identifier.\<close>

definition wf_store :: "store \<Rightarrow> bool" where
  "wf_store db = (\<forall>k c. db k = Some c \<longrightarrow> container_id c = k)"

text \<open>The decimals of a row that was written and can be read: two places, the digits of
  the column, and a duty that is not zero.\<close>

definition decimals_ok :: "container \<Rightarrow> bool" where
  "decimals_ok c =
     ((case cargo_weight c of None \<Rightarrow> True | Some w \<Rightarrow> two_places w \<and> fits 10 w)
      \<and> (case customs_duty_amount c of None \<Rightarrow> True
          | Some d \<Rightarrow> two_places d \<and> fits 12 d \<and> d \<noteq> 0))"

text \<open>The decimals of any row that was written; a weight of too many digits can be
  written.\<close>

definition stored_row :: "container \<Rightarrow> bool" where
  "stored_row c =
     ((case cargo_weight c of None \<Rightarrow> True | Some w \<Rightarrow> two_places w)
      \<and> (case customs_duty_amount c of None \<Rightarrow> True
          | Some d \<Rightarrow> two_places d \<and> fits 12 d \<and> d \<noteq> 0))"

definition stored_table :: "store \<Rightarrow> bool" where
  "stored_table db = (\<forall>k c. db k = Some c \<longrightarrow> container_id c = k \<and> stored_row c)"

subsection \<open>The guards and the status written, request by request\<close>

text \<open>The condition under which a request for a stored container \<open>c\<close> is accepted, in terms
  of the fields that the handler tests. An upload for an identifier that is stored is never
  accepted.\<close>

fun guard :: "request \<Rightarrow> container \<Rightarrow> bool" where
  "guard (Upload f pr) c = False"
| "guard (Pay payload) c =
     (customs_status c \<noteq> PAID
      \<and> \<not> (truthy_dec (customs_duty_amount c)
             \<and> pq_amount payload < the (customs_duty_amount c)))"
| "guard (Schedule cid) c = (customs_status c = PAID \<and> inspection_status c \<noteq> SCHEDULED)"
| "guard (Release cid) c = (inspection_status c = PASSED)"
| "guard _ c = True"

text \<open>The value that an accepted request assigns to \<^verbatim>\<open>overall_status\<close>; \<open>None\<close> when it
  assigns none.\<close>

fun written_status :: "request \<Rightarrow> container \<Rightarrow> overall_status option" where
  "written_status (Validate cid force) c =
     (if (force \<or> \<not> document_validated c)
         \<and> validate_container_data (vdata_of_container c) = []
      then Some VALIDATED else None)"
| "written_status (Pay payload) c = Some CUSTOMS_CLEARED"
| "written_status (Schedule cid) c = Some PENDING_INSPECTION"
| "written_status (Complete cid passed) c =
     Some (if passed then INSPECTION_PASSED else OS_FAILED)"
| "written_status (Release cid) c = Some RELEASED"
| "written_status _ c = None"

subsection \<open>Rows at later stages\<close>

definition released_container :: container where
  "released_container =
     passed_container\<lparr>overall_status := RELEASED, shipping_status := READY_FOR_PICKUP\<rparr>"

definition released_db :: store where
  "released_db = [''MAEU4567890'' \<mapsto> released_container]"

definition assessed_container :: container where
  "assessed_container =
     sample_container\<lparr>customs_status := PAYMENT_REQUIRED,
                      customs_duty_amount := Some 185000\<rparr>"

definition assessed_db :: store where
  "assessed_db = [''MAEU4567890'' \<mapsto> assessed_container]"

text \<open>The table after the sample bill was uploaded, and after its duty was assessed.\<close>

definition uploaded_db :: store where
  "uploaded_db = run Map.empty [(Upload ''bill.pdf'' bill_parse_result, 0)]"

section \<open>Properties\<close>

lemmas handler_defs = get_object_or_404_def add_log_def save_def

lemmas sample_defs = sample_container_def sample_db_def paid_container_def paid_db_def
  passed_container_def passed_db_def sample_parse_result_def released_container_def
  released_db_def assessed_container_def assessed_db_def

subsection \<open>release_container\<close>



subsection \<open>validate_container: the guard\<close>



subsection \<open>pay_customs_duty before any assessment\<close>



subsection \<open>schedule_inspection after a completed inspection\<close>

text \<open>
  C10. For a stored container with \<^verbatim>\<open>customs_status = PAID\<close>, \<^verbatim>\<open>schedule_inspection\<close>
  succeeds whenever \<^verbatim>\<open>inspection_status\<close> is anything but \<^verbatim>\<open>SCHEDULED\<close> (so also after
  \<^verbatim>\<open>PASSED\<close> or \<^verbatim>\<open>FAILED\<close>), and sets \<^verbatim>\<open>inspection_status = SCHEDULED\<close> and
  \<^verbatim>\<open>overall_status = PENDING_INSPECTION\<close>; only \<^verbatim>\<open>SCHEDULED\<close> itself is answered
  "Already scheduled", with the table unchanged.
\<close>

theorem schedule_inspection_reschedulable:
  assumes "db (container_id c) = Some c" and "customs_status c = PAID"
  shows "(inspection_status c \<noteq> SCHEDULED \<longrightarrow>
           (\<exists>r c'. fst (schedule_inspection db (container_id c) now) = Inr r
              \<and> snd (schedule_inspection db (container_id c) now) (container_id c) = Some c'
              \<and> is_inspection_status r = SCHEDULED
              \<and> inspection_status c' = SCHEDULED \<and> overall_status c' = PENDING_INSPECTION))
       \<and> (inspection_status c = SCHEDULED \<longrightarrow>
            schedule_inspection db (container_id c) now = (Inl AlreadyScheduled, db))"
  using assms by (simp add: schedule_inspection_def handler_defs Let_def)

theorem schedule_inspection_reschedulable_witness:
  "passed_db (container_id passed_container) = Some passed_container
   \<and> customs_status passed_container = PAID
   \<and> inspection_status passed_container = PASSED
   \<and> (\<exists>r c'. fst (schedule_inspection passed_db (container_id passed_container) 9) = Inr r
         \<and> snd (schedule_inspection passed_db (container_id passed_container) 9)
              (container_id passed_container) = Some c'
         \<and> is_inspection_status r = SCHEDULED
         \<and> inspection_status c' = SCHEDULED \<and> overall_status c' = PENDING_INSPECTION)"
proof -
  have a: "passed_db (container_id passed_container) = Some passed_container"
    by (simp add: sample_defs)
  have b: "customs_status passed_container = PAID" by (simp add: sample_defs)
  have c: "inspection_status passed_container = PASSED" by (simp add: sample_defs)
  from schedule_inspection_reschedulable [of passed_db passed_container 9] a b c
  show ?thesis by simp
qed

subsection \<open>Rounding lemmas\<close>

lemma round_half_even_err: "\<bar>of_int (round_half_even x) - x\<bar> \<le> 1 / 2"
proof -
  have "of_int \<lfloor>x\<rfloor> \<le> x" "x < of_int \<lfloor>x\<rfloor> + 1" by linarith+
  then show ?thesis by (auto simp add: round_half_even_def Let_def)
qed

lemma round_half_even_near:
  assumes "\<bar>x - of_int k\<bar> < 1 / 2"
  shows "round_half_even x = k"
proof (cases "of_int k \<le> x")
  case True
  with assms have "\<lfloor>x\<rfloor> = k" by (intro floor_unique) auto
  with assms True show ?thesis by (auto simp add: round_half_even_def Let_def)
next
  case False
  with assms have "\<lfloor>x\<rfloor> = k - 1" by (intro floor_unique) auto
  with assms False show ?thesis by (auto simp add: round_half_even_def Let_def)
qed

lemma quantize2_near:
  assumes "\<bar>x - of_int k / 100\<bar> < 1 / 200"
  shows "quantize2 x = of_int k / 100"
proof -
  have "\<bar>x * 100 - of_int k\<bar> = \<bar>x - of_int k / 100\<bar> * 100" by (simp add: abs_if)
  with assms have "\<bar>x * 100 - of_int k\<bar> < 1 / 2" by simp
  then show ?thesis by (simp add: quantize2_def round_half_even_near)
qed

lemma quantize2_idem: "quantize2 (quantize2 x) = quantize2 x"
proof -
  have a: "quantize2 x = of_int (round_half_even (x * 100)) / 100"
    by (simp add: quantize2_def)
  have b: "quantize2 (of_int k / 100) = of_int k / 100" for k
    by (rule quantize2_near) simp
  show ?thesis by (subst (1 2) a) (rule b)
qed

lemma ilog2_le:
  assumes "0 < x"
  shows "power_int 2 (ilog2 x) \<le> x"
proof -
  obtain p q where pq: "quotient_of x = (p, q)" by (cases "quotient_of x")
  then have q: "0 < q" by (rule quotient_of_denom_pos)
  have x: "x = of_int p / of_int q" using pq by (rule quotient_of_div)
  with assms q have p: "0 < p" by (simp add: zero_less_divide_iff)
  define m where "m = nat (bitlen p - 1)"
  define n where "n = nat (bitlen q)"
  have 1: "2 ^ m \<le> p" and 2: "q < 2 ^ n"
    using bitlen_bounds [of p] bitlen_bounds [of q] p q by (simp_all add: m_def n_def)
  have bp: "1 \<le> bitlen p" using p bitlen_eq_zero_iff [of p] bitlen_nonneg [of p]
    by simp
  have bq: "0 \<le> bitlen q" by (simp add: bitlen_nonneg)
  have 3: "(2::rat) ^ m \<le> of_int p"
  proof -
    from 1 have "(of_int (2 ^ m) :: rat) \<le> of_int p" by (simp only: of_int_le_iff)
    then show ?thesis by simp
  qed
  have 4: "of_int q \<le> (2::rat) ^ n"
  proof -
    from 2 have "(of_int q :: rat) \<le> of_int (2 ^ n)"
      by (simp only: of_int_le_iff less_imp_le)
    then show ?thesis by simp
  qed
  have d: "bitlen p - bitlen q - 1 = int m - int n" using bp bq by (simp add: m_def n_def)
  have 5: "power_int 2 (bitlen p - bitlen q - 1) \<le> x"
  proof -
    have "power_int (2::rat) (int m - int n) = 2 ^ m / 2 ^ n"
      by (simp add: power_int_diff)
    also have "\<dots> \<le> of_int p / 2 ^ n" using 3 by (simp add: divide_right_mono)
    also have "\<dots> \<le> of_int p / of_int q"
      using 4 p q by (intro divide_left_mono) auto
    finally show ?thesis by (simp add: x d)
  qed
  show ?thesis using 5 pq by (simp add: ilog2_def Let_def)
qed

lemma fl64_err: "\<bar>fl64 x - x\<bar> \<le> \<bar>x\<bar> / 2 ^ 53"
proof (cases "x = 0")
  case True
  then show ?thesis by (simp add: fl64_def)
next
  case False
  define u :: rat where "u = power_int 2 (ilog2 \<bar>x\<bar> - 52)"
  define n where "n = round_half_even (\<bar>x\<bar> / u)"
  have u: "0 < u" by (simp add: u_def zero_less_power_int)
  have "u * 2 ^ 52 = power_int 2 (ilog2 \<bar>x\<bar>)"
    by (simp add: u_def power_int_diff)
  also have "\<dots> \<le> \<bar>x\<bar>" using False by (intro ilog2_le) simp
  finally have ux: "u * 2 ^ 52 \<le> \<bar>x\<bar>" .
  have "\<bar>of_int n - \<bar>x\<bar> / u\<bar> \<le> 1 / 2" unfolding n_def by (rule round_half_even_err)
  then have "\<bar>of_int n - \<bar>x\<bar> / u\<bar> * u \<le> 1 / 2 * u"
    using u by (intro mult_right_mono) auto
  moreover have "\<bar>of_int n - \<bar>x\<bar> / u\<bar> * u = \<bar>of_int n * u - \<bar>x\<bar>\<bar>"
  proof -
    have "\<bar>of_int n * u - \<bar>x\<bar>\<bar> = \<bar>(of_int n - \<bar>x\<bar> / u) * u\<bar>"
      using u by (simp add: left_diff_distrib)
    also have "\<dots> = \<bar>of_int n - \<bar>x\<bar> / u\<bar> * u"
      using u by (simp add: abs_mult)
    finally show ?thesis by simp
  qed
  ultimately have e: "\<bar>of_int n * u - \<bar>x\<bar>\<bar> \<le> u / 2" by simp
  have "fl64 x - x = sgn x * (of_int n * u - \<bar>x\<bar>)"
    using False by (simp add: fl64_def Let_def u_def n_def right_diff_distrib sgn_mult_abs
        mult.assoc)
  then have "\<bar>fl64 x - x\<bar> = \<bar>of_int n * u - \<bar>x\<bar>\<bar>"
    using False by (simp add: abs_mult abs_sgn_eq)
  with e ux show ?thesis by simp
qed

lemma estimated_duty_close: "\<bar>estimated_duty w - 10 * w\<bar> \<le> 470 * \<bar>w\<bar> / 2 ^ 53"
proof -
  define e :: rat where "e = 1 / 2 ^ 53"
  have e: "0 \<le> e" "e \<le> 1" by (simp_all add: e_def)
  have fl: "\<bar>fl64 x - x\<bar> \<le> e * \<bar>x\<bar>" for x
    using fl64_err [of x] by (simp add: e_def)
  define a where "a = fl64 w"
  define b where "b = fl64 (a * 100)"
  define t where "t = fl64 (1 / 10)"
  define c where "c = fl64 (b * t)"
  have ed: "estimated_duty w = c"
    by (simp add: estimated_duty_def fmul_def py_float_def float_0_10_def
        a_def b_def t_def c_def)
  have ew: "e * \<bar>w\<bar> \<le> \<bar>w\<bar>"
    using e mult_right_mono [of e 1 "\<bar>w\<bar>"] by simp
  have 1: "\<bar>a - w\<bar> \<le> e * \<bar>w\<bar>" unfolding a_def by (rule fl)
  have a: "\<bar>a\<bar> \<le> 2 * \<bar>w\<bar>" using 1 ew by linarith
  have 2: "\<bar>b - a * 100\<bar> \<le> 200 * (e * \<bar>w\<bar>)"
  proof -
    have "\<bar>b - a * 100\<bar> \<le> e * \<bar>a * 100\<bar>" unfolding b_def by (rule fl)
    also have "\<dots> = e * (100 * \<bar>a\<bar>)" by (simp add: abs_mult)
    also have "\<dots> \<le> e * (100 * (2 * \<bar>w\<bar>))"
      using a e by (intro mult_left_mono) auto
    finally show ?thesis by simp
  qed
  have b: "\<bar>b\<bar> \<le> 400 * \<bar>w\<bar>" using 2 a ew by linarith
  have 3: "\<bar>t - 1 / 10\<bar> \<le> e / 10" using fl [of "1 / 10"] by (simp add: t_def)
  have t: "\<bar>t\<bar> \<le> 1" using 3 e by linarith
  have 4: "\<bar>c - b * t\<bar> \<le> 400 * (e * \<bar>w\<bar>)"
  proof -
    have "\<bar>c - b * t\<bar> \<le> e * \<bar>b * t\<bar>" unfolding c_def by (rule fl)
    also have "\<dots> = e * (\<bar>b\<bar> * \<bar>t\<bar>)" by (simp add: abs_mult)
    also have "\<dots> \<le> e * (400 * \<bar>w\<bar> * 1)"
      using b t e by (intro mult_left_mono mult_mono) auto
    finally show ?thesis by simp
  qed
  have 5: "\<bar>b * (t - 1 / 10)\<bar> \<le> 40 * (e * \<bar>w\<bar>)"
  proof -
    have "\<bar>b * (t - 1 / 10)\<bar> = \<bar>b\<bar> * \<bar>t - 1 / 10\<bar>" by (simp add: abs_mult)
    also have "\<dots> \<le> 400 * \<bar>w\<bar> * (e / 10)"
      using b 3 e by (intro mult_mono) auto
    finally show ?thesis by simp
  qed
  define p where "p = c - b * t"
  define q where "q = b * (t - 1 / 10)"
  define r where "r = b - a * 100"
  define s where "s = a - w"
  have "c - 10 * w = p + q + r / 10 + 10 * s"
    by (simp add: p_def q_def r_def s_def field_simps)
  then have eq: "\<bar>c - 10 * w\<bar> = \<bar>p + q + r / 10 + 10 * s\<bar>" by (simp only:)
  have tri: "\<bar>p + q + r / 10 + 10 * s\<bar> \<le> \<bar>p\<bar> + \<bar>q\<bar> + \<bar>r\<bar> / 10 + 10 * \<bar>s\<bar>"
    by linarith
  have P: "\<bar>p\<bar> \<le> 400 * (e * \<bar>w\<bar>)" unfolding p_def by (rule 4)
  have Q: "\<bar>q\<bar> \<le> 40 * (e * \<bar>w\<bar>)" unfolding q_def by (rule 5)
  have R: "\<bar>r\<bar> \<le> 200 * (e * \<bar>w\<bar>)" unfolding r_def by (rule 2)
  have S: "\<bar>s\<bar> \<le> e * \<bar>w\<bar>" unfolding s_def by (rule 1)
  have "\<bar>c - 10 * w\<bar> \<le> 470 * (e * \<bar>w\<bar>)"
    unfolding eq using tri P Q R S by linarith
  then show ?thesis by (simp add: ed e_def)
qed

lemma scale_down_bounds:
  "1 \<le> x \<Longrightarrow> x < 10 ^ n \<Longrightarrow>
     power_int 10 (scale_down n x) \<le> x \<and> x < power_int 10 (scale_down n x + 1)"
proof (induction n arbitrary: x)
  case 0
  then show ?case by simp
next
  case (Suc n)
  show ?case
  proof (cases "10 \<le> x")
    case True
    then have "1 \<le> x / 10" "x / 10 < 10 ^ n" using Suc.prems by simp_all
    from Suc.IH [OF this]
    have "power_int 10 (scale_down n (x / 10)) * 10 \<le> x"
      "x < power_int 10 (scale_down n (x / 10) + 1) * 10" by simp_all
    then show ?thesis using True by (simp add: power_int_add)
  next
    case False
    then show ?thesis using Suc.prems by simp
  qed
qed

lemma scale_up_one: "1 \<le> y \<Longrightarrow> scale_up n y = 0"
  by (cases n) simp_all

lemma scale_up_bounds:
  "0 < x \<Longrightarrow> x < 1 \<Longrightarrow> 1 \<le> x * 10 ^ n \<Longrightarrow>
     power_int 10 (scale_up n x) \<le> x \<and> x < power_int 10 (scale_up n x + 1)"
proof (induction n arbitrary: x)
  case 0
  then show ?case by simp
next
  case (Suc n)
  show ?case
  proof (cases "1 \<le> x * 10")
    case True
    then have "scale_up n (x * 10) = 0" by (rule scale_up_one)
    then show ?thesis using True Suc.prems by (simp add: power_int_minus)
  next
    case False
    then have "0 < x * 10" "x * 10 < 1" "1 \<le> x * 10 * 10 ^ n" using Suc.prems
      by (simp_all add: mult.assoc)
    from Suc.IH [OF this]
    have ih: "power_int 10 (scale_up n (x * 10)) \<le> x * 10"
      "x * 10 < power_int 10 (scale_up n (x * 10) + 1)" by blast+
    have a: "power_int (10::rat) (scale_up n (x * 10) + 1) = power_int 10 (scale_up n (x * 10)) * 10"
      by (simp add: power_int_add)
    have b: "power_int (10::rat) (scale_up n (x * 10) - 1) = power_int 10 (scale_up n (x * 10)) / 10"
      by (simp add: power_int_diff)
    have "scale_up (Suc n) x = scale_up n (x * 10) - 1" using Suc.prems by simp
    then show ?thesis using ih unfolding a by (simp add: b)
  qed
qed

lemma adjusted_bounds:
  assumes "0 < x"
  shows "power_int 10 (adjusted x) \<le> x \<and> x < power_int 10 (adjusted x + 1)"
proof -
  obtain p q where pq: "quotient_of x = (p, q)" by (cases "quotient_of x")
  then have q: "0 < q" by (rule quotient_of_denom_pos)
  have x: "x = of_int p / of_int q" using pq by (rule quotient_of_div)
  with assms q have p: "0 < p" by (simp add: zero_less_divide_iff)
  have pow: "(2::rat) ^ k \<le> 10 ^ k" for k by (rule power_mono) simp_all
  have up: "of_int j < (10::rat) ^ nat (bitlen j)" if "0 < j" for j
  proof -
    from that have "j < 2 ^ nat (bitlen j)" using bitlen_bounds [of j] by simp
    then have "(of_int j :: rat) < of_int (2 ^ nat (bitlen j))" by (simp only: of_int_less_iff)
    then have "(of_int j :: rat) < 2 ^ nat (bitlen j)" by simp
    with pow [of "nat (bitlen j)"] show ?thesis by linarith
  qed
  show ?thesis
  proof (cases "1 \<le> x")
    case True
    have "x \<le> of_int p"
    proof -
      have "(1::rat) \<le> of_int q" using q by simp
      then have "of_int p / of_int q \<le> (of_int p :: rat) / 1"
        using p by (intro divide_left_mono) auto
      then show ?thesis by (simp add: x)
    qed
    with up [OF p] have "x < 10 ^ nat (bitlen p)" by linarith
    from scale_down_bounds [OF True this] show ?thesis
      using True pq by (simp add: adjusted_def)
  next
    case False
    then have lt: "x < 1" by simp
    have "1 / of_int q \<le> x"
    proof -
      have "(1::rat) \<le> of_int p" using p by simp
      then have "1 / of_int q \<le> (of_int p :: rat) / of_int q"
        using q by (intro divide_right_mono) auto
      then show ?thesis by (simp add: x)
    qed
    then have "1 / of_int q * 10 ^ nat (bitlen q) \<le> x * 10 ^ nat (bitlen q)"
      by (intro mult_right_mono) auto
    moreover have "1 \<le> 1 / of_int q * (10::rat) ^ nat (bitlen q)"
      using up [OF q] q by (simp add: field_simps)
    ultimately have "1 \<le> x * 10 ^ nat (bitlen q)" by linarith
    from scale_up_bounds [OF assms lt this] show ?thesis
      using False pq by (simp add: adjusted_def)
  qed
qed

lemma round_half_even_int: "round_half_even (of_int k) = k"
  by (rule round_half_even_near) simp

lemma scaled_round_err:
  assumes "0 < u"
  shows "\<bar>of_int (round_half_even (y / u)) * u - y\<bar> \<le> u / 2"
proof -
  define n where "n = round_half_even (y / u)"
  have "\<bar>of_int n - y / u\<bar> \<le> 1 / 2" unfolding n_def by (rule round_half_even_err)
  then have "\<bar>of_int n - y / u\<bar> * u \<le> 1 / 2 * u"
    using assms by (intro mult_right_mono) auto
  moreover have "\<bar>of_int n - y / u\<bar> * u = \<bar>of_int n * u - y\<bar>"
  proof -
    have "\<bar>of_int n * u - y\<bar> = \<bar>(of_int n - y / u) * u\<bar>"
      using assms by (simp add: left_diff_distrib)
    also have "\<dots> = \<bar>of_int n - y / u\<bar> * u"
      using assms by (simp add: abs_mult)
    finally show ?thesis by simp
  qed
  ultimately show ?thesis by (simp add: n_def)
qed

lemma powi10_diff: "power_int (10::rat) (a - int m) = power_int 10 a / 10 ^ m"
  by (simp add: power_int_diff)

lemma powi10_neg: "power_int (10::rat) (- int m) = 1 / 10 ^ m"
  by (simp add: power_int_minus divide_inverse)

lemma create_decimal_err:
  assumes "0 < prec"
  shows "\<bar>create_decimal_from_float prec x - x\<bar> \<le> \<bar>x\<bar> / (2 * 10 ^ (prec - 1))"
proof (cases "x = 0")
  case True
  then show ?thesis by (simp add: create_decimal_from_float_def)
next
  case False
  define u :: rat where "u = power_int 10 (adjusted \<bar>x\<bar> - int prec + 1)"
  define n where "n = round_half_even (\<bar>x\<bar> / u)"
  have u: "0 < u" by (simp add: u_def)
  have "adjusted \<bar>x\<bar> - int prec + 1 = adjusted \<bar>x\<bar> - int (prec - 1)"
    using assms by (simp add: of_nat_diff)
  then have "u = power_int 10 (adjusted \<bar>x\<bar>) / 10 ^ (prec - 1)"
    unfolding u_def by (simp only: powi10_diff)
  then have "u * 10 ^ (prec - 1) = power_int 10 (adjusted \<bar>x\<bar>)" by simp
  also have "\<dots> \<le> \<bar>x\<bar>" using False adjusted_bounds [of "\<bar>x\<bar>"] by simp
  finally have ux: "u * 10 ^ (prec - 1) \<le> \<bar>x\<bar>" .
  have e: "\<bar>of_int n * u - \<bar>x\<bar>\<bar> \<le> u / 2"
    unfolding n_def using u by (rule scaled_round_err)
  have "create_decimal_from_float prec x - x = sgn x * (of_int n * u - \<bar>x\<bar>)"
    using False by (simp add: create_decimal_from_float_def Let_def u_def n_def right_diff_distrib sgn_mult_abs
        mult.assoc)
  then have "\<bar>create_decimal_from_float prec x - x\<bar> = \<bar>of_int n * u - \<bar>x\<bar>\<bar>"
    using False by (simp add: abs_mult abs_sgn_eq)
  moreover have "u / 2 \<le> \<bar>x\<bar> / (2 * 10 ^ (prec - 1))"
    using ux by (simp add: field_simps)
  ultimately show ?thesis using e by linarith
qed

lemma create_decimal_exact:
  assumes "x = of_int k / 100" and "\<bar>x\<bar> < 10 ^ (prec - 2)" and "2 \<le> prec"
  shows "create_decimal_from_float prec x = x"
proof (cases "x = 0")
  case True
  then show ?thesis by (simp add: create_decimal_from_float_def)
next
  case False
  define a where "a = adjusted \<bar>x\<bar>"
  have "power_int 10 a \<le> \<bar>x\<bar>" using False adjusted_bounds [of "\<bar>x\<bar>"] by (simp add: a_def)
  also have "\<bar>x\<bar> < power_int 10 (int (prec - 2))" using assms(2) by simp
  finally have "power_int (10::rat) a < power_int 10 (int (prec - 2))" .
  then have "a < int (prec - 2)" by (rule power_int_le_imp_less_exp [rotated]) simp_all
  then have a: "a \<le> int prec - 3" using assms(3) by linarith
  define d where "d = nat (int prec - 3 - a)"
  have "a - int prec + 1 = - int (d + 2)" using a by (simp add: d_def)
  then have "power_int (10::rat) (a - int prec + 1) = 1 / 10 ^ (d + 2)"
    by (simp only: powi10_neg)
  then have u: "power_int (10::rat) (a - int prec + 1) = 1 / (100 * 10 ^ d)"
    by simp
  have "\<bar>x\<bar> = of_int \<bar>k\<bar> / 100" by (simp add: assms(1))
  then have "\<bar>x\<bar> / (1 / (100 * 10 ^ d)) = of_int (\<bar>k\<bar> * 10 ^ d)" by simp
  then have "round_half_even (\<bar>x\<bar> / (1 / (100 * 10 ^ d))) = \<bar>k\<bar> * 10 ^ d"
    by (simp only: round_half_even_int)
  then have "create_decimal_from_float prec x = sgn x * of_int (\<bar>k\<bar> * 10 ^ d) * (1 / (100 * 10 ^ d))"
    using False by (simp add: create_decimal_from_float_def Let_def u flip: a_def)
  also have "\<dots> = sgn x * (of_int \<bar>k\<bar> / 100)" by simp
  also have "\<dots> = x" by (simp add: assms(1) sgn_mult_abs sgn_if)
  finally show ?thesis .
qed

subsection \<open>Decimals as they are stored\<close>

lemma two_placesE:
  assumes "two_places v"
  obtains k where "v = of_int k / 100"
  using assms unfolding two_places_def quantize2_def by metis

lemma two_places_int: "two_places (of_int k / 100)"
  unfolding two_places_def by (rule quantize2_near) simp

lemma two_places_quantize2: "two_places (quantize2 x)"
  by (simp add: two_places_def quantize2_idem)

lemma two_places_converted: "two_places (converted x)"
  by (simp add: converted_def two_places_quantize2)

lemma converted_stored:
  assumes "v = of_int k / 100" and "\<bar>v\<bar> < 10 ^ 13"
  shows "converted v = v"
proof -
  have "create_decimal_from_float 15 v = v"
    using assms by (intro create_decimal_exact [of v k]) simp_all
  moreover have "quantize2 v = v"
    unfolding assms(1) by (rule quantize2_near) simp
  ultimately show ?thesis by (simp add: converted_def)
qed

lemma quantize2_err: "\<bar>quantize2 x - x\<bar> \<le> 1 / 200"
proof -
  have "\<bar>of_int (round_half_even (x * 100)) * (1 / 100) - x\<bar> \<le> (1 / 100) / 2"
    using scaled_round_err [of "1 / 100" x] by simp
  then show ?thesis by (simp add: quantize2_def)
qed

lemma converted_large:
  assumes "10 ^ 13 \<le> \<bar>v\<bar>"
  shows "10 ^ 12 \<le> \<bar>converted v\<bar>"
proof -
  define y where "y = create_decimal_from_float 15 v"
  have "\<bar>y - v\<bar> \<le> \<bar>v\<bar> / (2 * 10 ^ (15 - 1))"
    unfolding y_def by (rule create_decimal_err) simp
  then have "\<bar>y - v\<bar> \<le> \<bar>v\<bar> / 2" 
  proof -
    have "\<bar>v\<bar> / (2 * 10 ^ (15 - 1)) \<le> \<bar>v\<bar> / 2" by (simp add: field_simps)
    with \<open>\<bar>y - v\<bar> \<le> \<bar>v\<bar> / (2 * 10 ^ (15 - 1))\<close> show ?thesis by linarith
  qed
  then have "\<bar>v\<bar> / 2 \<le> \<bar>y\<bar>" by linarith
  moreover have "\<bar>quantize2 y - y\<bar> \<le> 1 / 200" by (rule quantize2_err)
  ultimately have "\<bar>v\<bar> / 2 - 1 / 200 \<le> \<bar>quantize2 y\<bar>" by linarith
  with assms show ?thesis by (simp add: converted_def y_def)
qed

lemma fits_stored:
  assumes "two_places v" and "fits m v" and "m \<le> 14"
  shows "converted v = v \<and> \<bar>v\<bar> * 100 < 10 ^ m"
proof -
  obtain k where k: "v = of_int k / 100" using assms(1) by (rule two_placesE)
  have m: "(10::rat) ^ m \<le> 10 ^ 14" using assms(3) by (intro power_increasing) simp_all
  have "\<bar>v\<bar> < 10 ^ 13"
  proof (rule ccontr)
    assume "\<not> \<bar>v\<bar> < 10 ^ 13"
    then have "10 ^ 12 \<le> \<bar>converted v\<bar>" by (intro converted_large) simp
    with assms(2) m show False by (simp add: fits_def)
  qed
  with k have "converted v = v" by (rule converted_stored)
  with assms(2) show ?thesis by (simp add: fits_def)
qed

lemma fits_small:
  assumes "v = of_int k / 100" and "\<bar>v\<bar> * 100 < 10 ^ m" and "m \<le> 14"
  shows "fits m v"
proof -
  have m: "(10::rat) ^ m \<le> 10 ^ 14" using assms(3) by (intro power_increasing) simp_all
  with assms(2) have "\<bar>v\<bar> < 10 ^ 13" by simp
  with assms(1) have "converted v = v" by (rule converted_stored)
  with assms(2) show ?thesis by (simp add: fits_def)
qed

lemma weight_resaved:
  assumes "two_places w" and "fits 10 w"
  shows "converted (create_decimal_from_float 10 w) = w"
proof -
  obtain k where k: "w = of_int k / 100" using assms(1) by (rule two_placesE)
  from fits_stored [OF assms] have c: "converted w = w" and b: "\<bar>w\<bar> * 100 < 10 ^ 10"
    by simp_all
  from b have "\<bar>w\<bar> < 10 ^ (10 - 2)" by simp
  with k have "create_decimal_from_float 10 w = w"
    by (intro create_decimal_exact [of w k]) simp_all
  with c show ?thesis by simp
qed

lemma duty_resaved:
  assumes "two_places d" and "fits 12 d"
  shows "converted d = d"
  using fits_stored [OF assms] by simp

lemma stored_duty_exact:
  assumes "two_places w" and "fits 10 w"
  shows "converted (estimated_duty w) = 10 * w"
proof -
  obtain k where k: "w = of_int k / 100" using assms(1) by (rule two_placesE)
  from fits_stored [OF assms] have "\<bar>w\<bar> * 100 < 10 ^ 10" by simp
  then have w: "\<bar>w\<bar> < 10 ^ 8" by simp
  define e where "e = estimated_duty w"
  define y where "y = create_decimal_from_float 15 e"
  have 1: "\<bar>e - 10 * w\<bar> \<le> 470 * \<bar>w\<bar> / 2 ^ 53"
    unfolding e_def by (rule estimated_duty_close)
  also have "\<dots> < 470 * 10 ^ 8 / 2 ^ 53" using w by simp
  also have "\<dots> < 1 / 400" by simp
  finally have 2: "\<bar>e - 10 * w\<bar> < 1 / 400" .
  have w': "\<bar>w\<bar> < 100000000" using w by simp
  have "\<bar>e\<bar> < 10000000000" using 2 w' by linarith
  then have e: "\<bar>e\<bar> < 10 ^ 10" by simp
  have "\<bar>y - e\<bar> \<le> \<bar>e\<bar> / (2 * 10 ^ (15 - 1))"
    unfolding y_def by (rule create_decimal_err) simp
  also have "\<dots> < 10 ^ 10 / (2 * 10 ^ (15 - 1))" using e by simp
  also have "\<dots> < 1 / 400" by simp
  finally have 3: "\<bar>y - e\<bar> < 1 / 400" .
  from 2 3 have "\<bar>y - 10 * w\<bar> < 1 / 200" by linarith
  then have "\<bar>y - of_int (10 * k) / 100\<bar> < 1 / 200" by (simp add: k)
  then have "quantize2 y = of_int (10 * k) / 100" by (rule quantize2_near)
  then show ?thesis by (simp add: converted_def y_def e_def k)
qed

lemma stored_duty_fits:
  assumes "two_places w" and "fits 10 w"
  shows "two_places (10 * w) \<and> fits 12 (10 * w)"
proof -
  obtain k where k: "w = of_int k / 100" using assms(1) by (rule two_placesE)
  then have k10: "10 * w = of_int (10 * k) / 100" by simp
  from fits_stored [OF assms] have "\<bar>w\<bar> * 100 < 10 ^ 10" by simp
  then have "\<bar>10 * w\<bar> * 100 < 10 ^ 12" by (simp add: abs_mult)
  with k10 have "fits 12 (10 * w)" by (intro fits_small [of _ "10 * k"]) simp_all
  moreover have "two_places (10 * w)" unfolding k10 by (rule two_places_int)
  ultimately show ?thesis by simp
qed

lemma fallback_stored: "converted 150000 = 150000 \<and> two_places 150000 \<and> fits 12 150000"
proof -
  have a: "(150000::rat) = of_int 15000000 / 100" by simp
  have "converted (150000::rat) = 150000" by (rule converted_stored [OF a]) simp
  moreover have "two_places (150000::rat)" unfolding a by (rule two_places_int)
  moreover have "fits 12 (150000::rat)" by (rule fits_small [OF a]) simp_all
  ultimately show ?thesis by simp
qed

subsection \<open>Invariants of the table\<close>

lemmas all_handler_defs = upload_bill_of_lading_def validate_container_def
  check_customs_status_def pay_customs_duty_def check_shipping_status_def
  schedule_inspection_def complete_inspection_def release_container_def
  get_object_or_404_def add_log_def Let_def

lemma stored_decimals: "stored_row c \<Longrightarrow> readable c \<Longrightarrow> decimals_ok c"
  by (auto simp add: stored_row_def readable_def decimals_ok_def split: option.splits)

lemma decimals_readable: "decimals_ok c \<Longrightarrow> readable c \<and> stored_row c"
  by (auto simp add: stored_row_def readable_def decimals_ok_def split: option.splits)

lemma decimals_ok_cong:
  "cargo_weight c' = cargo_weight c \<Longrightarrow> customs_duty_amount c' = customs_duty_amount c \<Longrightarrow>
     decimals_ok c' = decimals_ok c"
  by (simp add: decimals_ok_def)

lemma save_stored:
  assumes "decimals_ok c"
  shows "save db c now = db(container_id c \<mapsto> c\<lparr>updated_at := now\<rparr>)"
proof -
  have "map_option (\<lambda>w. converted (create_decimal_from_float 10 w)) (cargo_weight c)
          = cargo_weight c"
    using assms by (cases "cargo_weight c") (simp_all add: decimals_ok_def weight_resaved)
  moreover have "map_option converted (customs_duty_amount c) = customs_duty_amount c"
    using assms by (cases "customs_duty_amount c") (simp_all add: decimals_ok_def duty_resaved)
  ultimately show ?thesis by (cases c) (simp add: save_def)
qed

lemma save_assessed:
  assumes "decimals_ok c" and "customs_duty_amount c = None" and "cargo_weight c = Some w"
  shows "save db (c\<lparr>customs_duty_amount := Some (estimated_duty w)\<rparr>) now =
           db(container_id c \<mapsto> c\<lparr>customs_duty_amount := Some (10 * w), updated_at := now\<rparr>)"
proof -
  have w: "two_places w" "fits 10 w" using assms by (simp_all add: decimals_ok_def)
  have "converted (create_decimal_from_float 10 w) = w" using w by (rule weight_resaved)
  moreover have "converted (estimated_duty w) = 10 * w" using w by (rule stored_duty_exact)
  ultimately show ?thesis using assms(3) by (cases c) (simp add: save_def)
qed

lemma save_fallback:
  assumes "decimals_ok c" and "customs_duty_amount c = None"
  shows "save db (c\<lparr>customs_duty_amount := Some 150000\<rparr>) now =
           db(container_id c \<mapsto> c\<lparr>customs_duty_amount := Some 150000, updated_at := now\<rparr>)"
proof -
  have "map_option (\<lambda>w. converted (create_decimal_from_float 10 w)) (cargo_weight c)
          = cargo_weight c"
    using assms by (cases "cargo_weight c") (simp_all add: decimals_ok_def weight_resaved)
  then show ?thesis by (cases c) (simp add: save_def fallback_stored)
qed

lemma decimals_ok_upd:
  "decimals_ok (c\<lparr>overall_status := a1\<rparr>) = decimals_ok c"
  "decimals_ok (c\<lparr>customs_status := a2\<rparr>) = decimals_ok c"
  "decimals_ok (c\<lparr>shipping_status := a3\<rparr>) = decimals_ok c"
  "decimals_ok (c\<lparr>inspection_status := a4\<rparr>) = decimals_ok c"
  "decimals_ok (c\<lparr>customs_paid_at := a5\<rparr>) = decimals_ok c"
  "decimals_ok (c\<lparr>document_validated := a6\<rparr>) = decimals_ok c"
  "decimals_ok (c\<lparr>validation_errors := a7\<rparr>) = decimals_ok c"
  "decimals_ok (c\<lparr>logs := a8\<rparr>) = decimals_ok c"
  "decimals_ok (c\<lparr>updated_at := a9\<rparr>) = decimals_ok c"
  by (simp_all add: decimals_ok_def)

lemma check_customs_stored:
  assumes "db cid = Some c" and "container_id c = cid" and "decimals_ok c"
    and "customs_duty_amount c = None"
  shows "snd (check_customs_status db cid now) =
           db(cid \<mapsto> c\<lparr>customs_duty_amount :=
                            Some (if truthy_dec (cargo_weight c)
                                  then 10 * the (cargo_weight c) else 150000),
                          customs_status :=
                            (if customs_status c = PENDING then PAYMENT_REQUIRED
                             else customs_status c),
                          updated_at := now\<rparr>)"
proof -
  have wt: "map_option (\<lambda>w. converted (create_decimal_from_float 10 w)) (cargo_weight c)
          = cargo_weight c"
    using assms(3) by (cases "cargo_weight c") (simp_all add: decimals_ok_def weight_resaved)
  have dt: "truthy_dec (cargo_weight c) \<Longrightarrow>
              converted (estimated_duty (the (cargo_weight c))) = 10 * the (cargo_weight c)"
    using assms(3)
    by (cases "cargo_weight c") (simp_all add: decimals_ok_def stored_duty_exact)
  have fb: "converted 150000 = 150000" by (simp add: fallback_stored)
  show ?thesis
  proof (cases "truthy_dec (cargo_weight c)")
    case True
    show ?thesis
    proof (cases "customs_status c = PENDING")
      case p: True
      from assms(1,2,4) True p wt dt [OF True] show ?thesis
        by (cases c) (simp add: check_customs_status_def get_object_or_404_def Let_def save_def)
    next
      case p: False
      from assms(1,2,4) True p wt dt [OF True] show ?thesis
        by (cases c) (simp add: check_customs_status_def get_object_or_404_def Let_def save_def)
    qed
  next
    case False
    show ?thesis
    proof (cases "customs_status c = PENDING")
      case p: True
      from assms(1,2,4) False p wt fb show ?thesis
        by (cases c) (simp add: check_customs_status_def get_object_or_404_def Let_def save_def)
    next
      case p: False
      from assms(1,2,4) False p wt fb show ?thesis
        by (cases c) (simp add: check_customs_status_def get_object_or_404_def Let_def save_def)
    qed
  qed
qed

lemma handle_row:
  assumes "db (request_id r) = Some c" and "container_id c = request_id r"
    and "decimals_ok c" and "\<not> catches r"
  shows "\<exists>c'. snd (handle db r now) (request_id r) = Some c'
           \<and> (\<forall>k. k \<noteq> request_id r \<longrightarrow> snd (handle db r now) k = db k)
           \<and> container_id c' = container_id c \<and> cargo_weight c' = cargo_weight c
           \<and> decimals_ok c'
           \<and> (customs_duty_amount c \<noteq> None \<longrightarrow>
                 customs_duty_amount c' = customs_duty_amount c)
           \<and> (customs_status c = PAID \<longrightarrow> customs_status c' = PAID)"
proof (cases r)
  case (Upload f pr)
  with assms show ?thesis by simp
next
  case (Validate cid force)
  with assms show ?thesis
    by (auto simp add: outcome_def validate_container_def get_object_or_404_def add_log_def
        Let_def save_stored decimals_ok_upd)
next
  case (CheckCustoms cid)
  show ?thesis
  proof (cases "customs_duty_amount c")
    case (Some d)
    with assms CheckCustoms show ?thesis
      by (simp add: outcome_def check_customs_status_def get_object_or_404_def)
  next
    case None
    have id: "container_id c = cid" using assms(2) CheckCustoms by simp
    have at: "db cid = Some c" using assms(1) CheckCustoms by simp
    have ok: "decimals_ok (c\<lparr>customs_duty_amount :=
                 Some (if truthy_dec (cargo_weight c)
                       then 10 * the (cargo_weight c) else 150000)\<rparr>)"
    proof (cases "cargo_weight c")
      case wn: None
      with assms(3) show ?thesis by (simp add: decimals_ok_def fallback_stored)
    next
      case (Some w)
      with assms(3) have w: "two_places w" "fits 10 w" by (simp_all add: decimals_ok_def)
      from Some w stored_duty_fits [OF w] show ?thesis
        by (simp add: decimals_ok_def fallback_stored)
    qed
    note st = check_customs_stored [of db cid c now]
    from None CheckCustoms ok at id assms(3) show ?thesis
      by (simp add: outcome_def st decimals_ok_def)
  qed
next
  case (Pay payload)
  with assms show ?thesis
    by (auto simp add: outcome_def pay_customs_duty_def get_object_or_404_def add_log_def
        Let_def save_stored decimals_ok_upd)
next
  case (CheckShipping cid)
  with assms show ?thesis
    by (auto simp add: outcome_def check_shipping_status_def get_object_or_404_def add_log_def
        Let_def save_stored decimals_ok_upd)
next
  case (Schedule cid)
  with assms show ?thesis
    by (auto simp add: outcome_def schedule_inspection_def get_object_or_404_def add_log_def
        Let_def save_stored decimals_ok_upd)
next
  case (Complete cid passed)
  with assms show ?thesis
    by (auto simp add: outcome_def complete_inspection_def get_object_or_404_def add_log_def
        Let_def save_stored decimals_ok_upd)
next
  case (Release cid)
  with assms show ?thesis
    by (auto simp add: outcome_def release_container_def get_object_or_404_def add_log_def
        Let_def save_stored decimals_ok_upd)
qed

lemma decimals_stored: "decimals_ok c = (stored_row c \<and> readable c)"
  by (auto simp add: stored_row_def readable_def decimals_ok_def split: option.splits)

lemma upload_row:
  "snd (upload_bill_of_lading db f pr now) = db
   \<or> (db (x_container_id (data pr)) = None
       \<and> (\<exists>c'. snd (upload_bill_of_lading db f pr now) (x_container_id (data pr)) = Some c'
              \<and> (\<forall>k. k \<noteq> x_container_id (data pr) \<longrightarrow>
                     snd (upload_bill_of_lading db f pr now) k = db k)
              \<and> container_id c' = x_container_id (data pr)
              \<and> customs_duty_amount c' = None
              \<and> (case cargo_weight c' of None \<Rightarrow> True | Some w \<Rightarrow> two_places w)))"
proof (cases "endswith (map lower_char f) ''.pdf'' \<and> success pr
    \<and> db (x_container_id (data pr)) = None")
  case True
  then show ?thesis
    by (cases "x_cargo_weight (data pr)")
       (simp_all add: upload_bill_of_lading_def first_by_id_def add_log_def save_def Let_def
         two_places_converted)
next
  case False
  then have "snd (upload_bill_of_lading db f pr now) = db"
    by (auto simp add: upload_bill_of_lading_def first_by_id_def Let_def
        split: option.splits)
  then show ?thesis by simp
qed

lemma respond_other:
  assumes "db (request_id r) = None \<or> unreadable_at db (request_id r)" and "\<not> catches r"
  shows "snd (respond db r now) = db"
  using assms
  by (cases r)
     (auto simp add: respond_def unreadable_at_def outcome_def all_handler_defs
       split: option.splits)

lemma serve_upload:
  "serve db (Upload f pr) now = snd (upload_bill_of_lading db f pr now)"
  by (simp add: serve_def respond_def outcome_def)

lemma serve_handle:
  assumes "\<not> catches r" and "db (request_id r) = Some c" and "readable c"
  shows "serve db r now = snd (handle db r now)"
  using assms by (simp add: serve_def respond_def unreadable_at_def)

lemma serve_stored:
  assumes "stored_table db"
  shows "stored_table (serve db r now)"
proof (cases "catches r")
  case True
  then obtain f pr where r: "r = Upload f pr" by (cases r) simp_all
  let ?U = "snd (upload_bill_of_lading db f pr now)"
  let ?id = "x_container_id (data pr)"
  from upload_row [of db f pr now] show ?thesis
  proof
    assume "?U = db"
    with assms show ?thesis by (simp add: r serve_upload)
  next
    assume "db ?id = None \<and> (\<exists>c'. ?U ?id = Some c'
              \<and> (\<forall>k. k \<noteq> ?id \<longrightarrow> ?U k = db k)
              \<and> container_id c' = ?id
              \<and> customs_duty_amount c' = None
              \<and> (case cargo_weight c' of None \<Rightarrow> True | Some w \<Rightarrow> two_places w))"
    then obtain c' where c': "?U ?id = Some c'" "\<forall>k. k \<noteq> ?id \<longrightarrow> ?U k = db k"
      "container_id c' = ?id" "customs_duty_amount c' = None"
      "case cargo_weight c' of None \<Rightarrow> True | Some w \<Rightarrow> two_places w" by blast
    have row: "stored_row c'" using c'(4,5) by (simp add: stored_row_def)
    show ?thesis unfolding stored_table_def r serve_upload
    proof (intro allI impI)
      fix k c assume kc: "?U k = Some c"
      show "container_id c = k \<and> stored_row c"
      proof (cases "k = ?id")
        case True
        with kc c'(1,3) row show ?thesis by simp
      next
        case False
        with kc c'(2) assms show ?thesis by (simp add: stored_table_def)
      qed
    qed
  qed
next
  case False
  show ?thesis
  proof (cases "db (request_id r) = None \<or> unreadable_at db (request_id r)")
    case True
    from respond_other [OF True False] assms show ?thesis by (simp add: serve_def)
  next
    case no: False
    then obtain c where c: "db (request_id r) = Some c" "readable c"
      by (auto simp add: unreadable_at_def split: option.splits)
    with assms have ok: "container_id c = request_id r" "decimals_ok c"
      by (simp_all add: stored_table_def decimals_stored)
    let ?H = "snd (handle db r now)"
    have sh: "serve db r now = ?H"
      using False c by (simp add: serve_def respond_def unreadable_at_def)
    from handle_row [of db r c now] c(1) ok False
    obtain c1 where c1: "?H (request_id r) = Some c1"
      "\<forall>k. k \<noteq> request_id r \<longrightarrow> ?H k = db k"
      "container_id c1 = container_id c" "decimals_ok c1" by blast
    show ?thesis unfolding stored_table_def sh
    proof (intro allI impI)
      fix k c' assume kc: "?H k = Some c'"
      show "container_id c' = k \<and> stored_row c'"
      proof (cases "k = request_id r")
        case True
        with kc c1 ok(1) show ?thesis by (simp add: decimals_stored)
      next
        case False
        with kc c1(2) assms show ?thesis by (simp add: stored_table_def)
      qed
    qed
  qed
qed

lemma run_stored: "stored_table db \<Longrightarrow> stored_table (run db rs)"
  by (induction rs arbitrary: db) (auto simp: serve_stored)

lemma empty_stored: "stored_table Map.empty"
  by (simp add: stored_table_def)

lemma serve_row:
  assumes "stored_table db" and "db cid = Some c" and "readable c"
  shows "\<exists>c'. serve db r now cid = Some c' \<and> readable c'
           \<and> cargo_weight c' = cargo_weight c
           \<and> (customs_duty_amount c \<noteq> None \<longrightarrow>
                 customs_duty_amount c' = customs_duty_amount c)
           \<and> (customs_status c = PAID \<longrightarrow> customs_status c' = PAID)"
proof (cases "catches r")
  case True
  then obtain f pr where r: "r = Upload f pr" by (cases r) simp_all
  let ?U = "snd (upload_bill_of_lading db f pr now)"
  let ?id = "x_container_id (data pr)"
  from upload_row [of db f pr now] have "?U cid = Some c"
  proof
    assume "?U = db"
    with assms show ?thesis by simp
  next
    assume a: "db ?id = None \<and> (\<exists>c'. ?U ?id = Some c'
              \<and> (\<forall>k. k \<noteq> ?id \<longrightarrow> ?U k = db k)
              \<and> container_id c' = ?id
              \<and> customs_duty_amount c' = None
              \<and> (case cargo_weight c' of None \<Rightarrow> True | Some w \<Rightarrow> two_places w))"
    with assms(2) have "cid \<noteq> ?id" by auto
    with a assms(2) show ?thesis by auto
  qed
  with assms(3) show ?thesis by (simp add: r serve_upload)
next
  case False
  show ?thesis
  proof (cases "db (request_id r) = None \<or> unreadable_at db (request_id r)")
    case True
    from respond_other [OF True False] assms show ?thesis by (simp add: serve_def)
  next
    case no: False
    then obtain c0 where c0: "db (request_id r) = Some c0" "readable c0"
      by (auto simp add: unreadable_at_def split: option.splits)
    with assms have ok: "container_id c0 = request_id r" "decimals_ok c0"
      by (simp_all add: stored_table_def decimals_stored)
    let ?H = "snd (handle db r now)"
    have sh: "serve db r now = ?H"
      using False c0 by (simp add: serve_def respond_def unreadable_at_def)
    from handle_row [of db r c0 now] c0(1) ok False
    obtain c1 where c1: "?H (request_id r) = Some c1"
      "\<forall>k. k \<noteq> request_id r \<longrightarrow> ?H k = db k"
      "cargo_weight c1 = cargo_weight c0" "decimals_ok c1"
      "customs_duty_amount c0 \<noteq> None \<longrightarrow> customs_duty_amount c1 = customs_duty_amount c0"
      "customs_status c0 = PAID \<longrightarrow> customs_status c1 = PAID" by blast
    show ?thesis
    proof (cases "cid = request_id r")
      case True
      with c0(1) assms(2) have "c0 = c" by simp
      with True c1 show ?thesis by (simp add: decimals_stored sh)
    next
      case False
      with c1(2) assms(2,3) show ?thesis by (simp add: sh)
    qed
  qed
qed

lemma run_row:
  assumes "stored_table db" and "db cid = Some c" and "readable c"
  shows "\<exists>c'. run db rs cid = Some c' \<and> readable c'
           \<and> cargo_weight c' = cargo_weight c
           \<and> (customs_duty_amount c \<noteq> None \<longrightarrow>
                 customs_duty_amount c' = customs_duty_amount c)
           \<and> (customs_status c = PAID \<longrightarrow> customs_status c' = PAID)"
  using assms
proof (induction rs arbitrary: db c)
  case Nil
  then show ?case by simp
next
  case (Cons x rs)
  obtain r t where x: "x = (r, t)" by (cases x)
  from serve_row [OF Cons.prems, of r t]
  obtain c1 where c1: "serve db r t cid = Some c1" "readable c1"
    "cargo_weight c1 = cargo_weight c"
    "customs_duty_amount c \<noteq> None \<longrightarrow> customs_duty_amount c1 = customs_duty_amount c"
    "customs_status c = PAID \<longrightarrow> customs_status c1 = PAID" by blast
  from Cons.IH [OF serve_stored [OF Cons.prems(1)] c1(1,2)] c1(3,4,5)
  show ?case by (auto simp add: x)
qed

lemma run_append: "run db (rs @ rs') = run (run db rs) rs'"
  by (induction rs arbitrary: db) auto

subsection \<open>Validation rules\<close>




subsection \<open>upload_bill_of_lading: an identifier that exists\<close>




end
